theory Spec2Isabelle
  imports Complex_Main
begin

chapter \<open>BuildBetter MCP server: schema cache, type resolver, similarity matcher, query synthesis\<close>

text \<open>
  The development follows the TypeScript source of the most complete revision of the
  server (\<^verbatim>\<open>src/build/index.js\<close>, from line 2836 on). Strings are lists of
  characters; a character stands for one UTF-16 code unit in the range 0..255, which is
  what \<^verbatim>\<open>length\<close>, \<^verbatim>\<open>charAt\<close> and the regular expressions of the source
  count. The downstream GraphQL endpoint is not part of the program: what it answers is
  an argument of the function that issues the request, and every request issued is
  appended to a log in the server state.
\<close>

section \<open>JavaScript strings and values\<close>

subsection \<open>String primitives\<close>

text \<open>
  The white space of \<^verbatim>\<open>String.prototype.trim\<close> and of \<^verbatim>\<open>parseInt\<close> among the
  code units below 256: TAB, LF, VT, FF, CR, SPACE and NBSP.
\<close>

definition isWhiteSpace :: "char \<Rightarrow> bool" where
  "isWhiteSpace c = ((of_char c :: nat) \<in> {9, 10, 11, 12, 13, 32, 160})"

definition trim :: "string \<Rightarrow> string" where
  "trim s = rev (dropWhile isWhiteSpace (rev (dropWhile isWhiteSpace s)))"

text \<open>
  \<^verbatim>\<open>toLowerCase\<close> on code units below 256: A..Z and the Latin-1 capitals
  (0xC0..0xDE without the multiplication sign 0xD7) move up by 32.
\<close>

definition toLowerCaseChar :: "char \<Rightarrow> char" where
  "toLowerCaseChar c =
     (let n = (of_char c :: nat)
      in if (65 \<le> n \<and> n \<le> 90) \<or> (192 \<le> n \<and> n \<le> 222 \<and> n \<noteq> 215)
         then char_of (n + 32) else c)"

definition toLowerCase :: "string \<Rightarrow> string" where
  "toLowerCase s = map toLowerCaseChar s"

definition startsWith :: "string \<Rightarrow> string \<Rightarrow> bool" where
  "startsWith s p = (take (length p) s = p)"

fun includesStr :: "string \<Rightarrow> string \<Rightarrow> bool" where
  "includesStr [] p = (p = [])"
| "includesStr (c # cs) p = (startsWith (c # cs) p \<or> includesStr cs p)"

text \<open>\<^verbatim>\<open>Array.prototype.join\<close> on an array of strings.\<close>

fun join :: "string \<Rightarrow> string list \<Rightarrow> string" where
  "join sep [] = []"
| "join sep [x] = x"
| "join sep (x # y # ys) = x @ sep @ join sep (y # ys)"

subsection \<open>Values of type any\<close>

text \<open>
  The introspection result is declared \<^verbatim>\<open>type IntrospectionResult = any\<close>: it is
  whatever the endpoint's JSON response parses to. Numbers are the finite ones; the keys
  of an object are distinct.
\<close>

datatype jsval =
    JUndefined
  | JNull
  | JBool bool
  | JNum rat
  | JStr string
  | JArr "jsval list"
  | JObj "(string \<times> jsval) list"

datatype error = TypeError string | DownstreamError string

text \<open>\<^verbatim>\<open>error instanceof Error ? error.message : String(error)\<close>\<close>

fun errorMessage :: "error \<Rightarrow> string" where
  "errorMessage (TypeError m) = m"
| "errorMessage (DownstreamError m) = m"



section \<open>Type references and their display form\<close>

text \<open>
  \<^verbatim>\<open>interface GraphQLOutputType { kind: string; name?: string | null;
  ofType?: GraphQLOutputType | null; }\<close>
\<close>

datatype GraphQLOutputType =
  GraphQLOutputType (type_kind: string) (type_name: "string option")
    (ofType: "GraphQLOutputType option")

text \<open>
  \<^verbatim>\<open>formatTypeForDisplay\<close>: a null reference is \<^verbatim>\<open>'Unknown'\<close>; the last line is
  \<^verbatim>\<open>type.name || 'UnnamedType'\<close>, so a null, absent or empty name gives the placeholder.
\<close>

fun formatTypeForDisplay :: "GraphQLOutputType option \<Rightarrow> string" where
  "formatTypeForDisplay None = ''Unknown''"
| "formatTypeForDisplay (Some (GraphQLOutputType k n t)) =
     (if k = ''NON_NULL'' then formatTypeForDisplay t @ ''!''
      else if k = ''LIST'' then ''['' @ formatTypeForDisplay t @ '']''
      else (case n of
              None \<Rightarrow> ''UnnamedType''
            | Some s \<Rightarrow> if s = [] then ''UnnamedType'' else s))"

subsection \<open>Reading a reference as a chain of wrappers\<close>

text \<open>
  The wrappers of a reference, outermost first, and the reference the chain ends in
  (\<open>None\<close> when a wrapper has no inner reference).
\<close>

datatype wrapper = NonNull | ListOf

fun layers :: "GraphQLOutputType \<Rightarrow> wrapper list" where
  "layers (GraphQLOutputType k n t) =
     (if k = ''NON_NULL'' then NonNull # (case t of None \<Rightarrow> [] | Some u \<Rightarrow> layers u)
      else if k = ''LIST'' then ListOf # (case t of None \<Rightarrow> [] | Some u \<Rightarrow> layers u)
      else [])"

fun chainBase :: "GraphQLOutputType \<Rightarrow> GraphQLOutputType option" where
  "chainBase (GraphQLOutputType k n t) =
     (if k = ''NON_NULL'' \<or> k = ''LIST''
      then (case t of None \<Rightarrow> None | Some u \<Rightarrow> chainBase u)
      else Some (GraphQLOutputType k n t))"

fun closer :: "wrapper \<Rightarrow> char" where
  "closer NonNull = CHR ''!''"
| "closer ListOf = CHR '']''"

definition exampleListOfInt :: GraphQLOutputType where
  "exampleListOfInt =
     GraphQLOutputType ''NON_NULL'' None
       (Some (GraphQLOutputType ''LIST'' None
         (Some (GraphQLOutputType ''NON_NULL'' None
           (Some (GraphQLOutputType ''SCALAR'' (Some ''Int'') None))))))"

definition exampleUnnamed :: GraphQLOutputType where
  "exampleUnnamed =
     GraphQLOutputType ''LIST'' None (Some (GraphQLOutputType ''OBJECT'' None None))"

section \<open>Downstream requests and the server state\<close>

text \<open>
  Every call of \<^verbatim>\<open>graphqlClient.request\<close> is one HTTP request to the endpoint. The
  state records them in order, next to the module-level schema cache
  \<^verbatim>\<open>let cachedSchema: { data: IntrospectionResult; fetchedAt: number } | null\<close>.
\<close>

datatype downstream_request =
    IntrospectionQuery
  | GetTypeFields string
  | UserQuery string

record cached_schema =
  data :: jsval
  fetchedAt :: int

record server_state =
  cachedSchema :: "cached_schema option"
  sent :: "downstream_request list"

text \<open>What a tool handler returns: the text blocks and the \<^verbatim>\<open>isError\<close> flag.\<close>

record tool_result =
  content :: "string list"
  isError :: bool

section \<open>Schema cache\<close>

definition SCHEMA_CACHE_TTL_MS :: int where
  "SCHEMA_CACHE_TTL_MS = 30 * 60 * 1000"

text \<open>
  \<^verbatim>\<open>getSchemaInfo\<close>. \<open>now\<close> is \<^verbatim>\<open>Date.now()\<close> at the freshness test. \<open>response\<close>
  is what the endpoint does with the introspection request if it is issued: it fails
  with an error, or it returns the data, and \<^verbatim>\<open>Date.now()\<close> then gives the time stored
  with it. An error is logged to the console and thrown again.
\<close>

definition getSchemaInfo ::
  "int \<Rightarrow> (error + jsval \<times> int) \<Rightarrow> server_state \<Rightarrow> (error + jsval) \<times> server_state" where
  "getSchemaInfo now response s =
     (case (case cachedSchema s of
              None \<Rightarrow> None
            | Some c \<Rightarrow> if now - fetchedAt c < SCHEMA_CACHE_TTL_MS then Some (data c) else None) of
        Some d \<Rightarrow> (Inr d, s)
      | None \<Rightarrow>
          (let s1 = s\<lparr>sent := sent s @ [IntrospectionQuery]\<rparr>
           in case response of
                Inr (d, stored) \<Rightarrow>
                  (Inr d, s1\<lparr>cachedSchema := Some \<lparr>data = d, fetchedAt = stored\<rparr>\<rparr>)
              | Inl e \<Rightarrow> (Inl e, s1)))"

definition exampleSchema :: jsval where
  "exampleSchema =
     JObj [(''__schema'', JObj [(''types'',
       JArr [JObj [(''kind'', JStr ''SCALAR''), (''name'', JStr ''__Schema'')],
             JObj [(''kind'', JStr ''OBJECT''), (''name'', JStr ''interview'')],
             JObj [(''kind'', JStr ''OBJECT''), (''name'', JStr ''extraction'')],
             JObj [(''kind'', JStr ''ENUM''), (''name'', JStr ''extraction_type_enum'')]])])]"

definition emptyState :: server_state where
  "emptyState = \<lparr>cachedSchema = None, sent = []\<rparr>"

definition staleState :: server_state where
  "staleState = \<lparr>cachedSchema = Some \<lparr>data = JNull, fetchedAt = 0\<rparr>, sent = []\<rparr>"

section \<open>Browsable types\<close>









section \<open>The run-query tool\<close>

text \<open>
  \<^verbatim>\<open>run-query\<close>. \<open>query\<close> is \<^verbatim>\<open>args?.query as string\<close>, absent or a string.
  \<open>response\<close> is what the endpoint does with the query if it is sent. The \<^verbatim>\<open>catch\<close>
  block that turns a failed request into a diagnostic (and may itself ask the endpoint for
  the fields of a type) is the argument \<open>onError\<close>; \<open>stringify\<close> is
  \<^verbatim>\<open>JSON.stringify(\<cdot>, null, 2)\<close>.
\<close>

definition mutationBlockedText :: string where
  "mutationBlockedText =
     ''Error: Only read-only queries (query, subscription) are allowed. Mutations are blocked.''"

definition run_query ::
  "(error \<Rightarrow> server_state \<Rightarrow> tool_result \<times> server_state) \<Rightarrow> (jsval \<Rightarrow> string)
     \<Rightarrow> string option \<Rightarrow> (error + jsval) \<Rightarrow> server_state \<Rightarrow> tool_result \<times> server_state" where
  "run_query onError stringify query response s =
     (case query of
        None \<Rightarrow>
          (\<lparr>content = [''Error: 'query' argument is required for run-query.''],
            isError = True\<rparr>, s)
      | Some q \<Rightarrow>
          if q = [] then
            (\<lparr>content = [''Error: 'query' argument is required for run-query.''],
              isError = True\<rparr>, s)
          else
            (let queryText = toLowerCase (trim q)
             in if startsWith queryText ''mutation'' \<or> includesStr queryText ''mutation {''
                then (\<lparr>content = [mutationBlockedText], isError = True\<rparr>, s)
                else
                  (let s1 = s\<lparr>sent := sent s @ [UserQuery q]\<rparr>
                   in case response of
                        Inr result \<Rightarrow> (\<lparr>content = [stringify result], isError = False\<rparr>, s1)
                      | Inl e \<Rightarrow> onError e s1)))"

section \<open>The schema resource\<close>






text \<open>Stand-ins for the arguments of the handlers in the examples.\<close>

definition plainStringify :: "jsval \<Rightarrow> string" where
  "plainStringify v = ''(json)''"


definition plainOnError :: "error \<Rightarrow> server_state \<Rightarrow> tool_result \<times> server_state" where
  "plainOnError e s = (\<lparr>content = [errorMessage e], isError = True\<rparr>, s)"

section \<open>Numbers and text\<close>


abbreviation nl :: string where
  "nl \<equiv> [CHR 0x0A]"

fun decimalNat :: "nat \<Rightarrow> string" where
  "decimalNat n =
     (if n < 10 then [char_of (48 + n)]
      else decimalNat (n div 10) @ [char_of (48 + n mod 10)])"

declare decimalNat.simps [simp del]

definition decimalInt :: "int \<Rightarrow> string" where
  "decimalInt i = (if i < 0 then ''-'' @ decimalNat (nat (- i)) else decimalNat (nat i))"

text \<open>
  \<^verbatim>\<open>String(n)\<close> for a number: an integer up to \<open>2\<^sup>5\<^sup>3\<close> in magnitude is written in
  plain decimal. Any other number is written in the engine's shortest round-trip notation,
  which is not modelled: it is the argument \<open>other\<close>.
\<close>

definition numberToString :: "(rat \<Rightarrow> string) \<Rightarrow> rat \<Rightarrow> string" where
  "numberToString other q =
     (if of_int \<lfloor>q\<rfloor> = q \<and> \<bar>q\<bar> \<le> 2 ^ 53 then decimalInt \<lfloor>q\<rfloor> else other q)"





section \<open>Arguments of the tools\<close>

text \<open>
  A \<^verbatim>\<open>limit\<close> argument: absent (\<^verbatim>\<open>undefined\<close> or \<^verbatim>\<open>null\<close>), a number, or a string.
\<close>

datatype limit_arg = LimitAbsent | LimitNumber rat | LimitText string



section \<open>Fields of a type\<close>

text \<open>
  What \<^verbatim>\<open>getTypeFields\<close> returns: \<^verbatim>\<open>{ name: string; type: GraphQLOutputType;
  description?: string | null }[]\<close>; and the \<^verbatim>\<open>__type\<close> of the endpoint's answer.
\<close>

record GraphQLField =
  field_name :: string
  field_type :: GraphQLOutputType
  field_description :: "string option"

record introspected_type =
  t_fields :: "GraphQLField list option"
  t_inputFields :: "GraphQLField list option"
  t_enumValues :: "(string \<times> string option) list option"

definition getTypeFields ::
  "string \<Rightarrow> (error + introspected_type option) \<Rightarrow> server_state
     \<Rightarrow> (error + GraphQLField list) \<times> server_state" where
  "getTypeFields typeName response s =
     (let s1 = s\<lparr>sent := sent s @ [GetTypeFields typeName]\<rparr>
      in case response of
           Inl e \<Rightarrow> (Inl e, s1)
         | Inr None \<Rightarrow> (Inr [], s1)
         | Inr (Some t) \<Rightarrow>
             (Inr ((case t_fields t of None \<Rightarrow> [] | Some fs \<Rightarrow> fs)
                   @ (case t_inputFields t of None \<Rightarrow> [] | Some fs \<Rightarrow> fs)
                   @ (case t_enumValues t of
                        None \<Rightarrow> []
                      | Some evs \<Rightarrow>
                          map (\<lambda>(n, d). \<lparr>field_name = n,
                                 field_type = GraphQLOutputType ''ENUM_VALUE'' (Some n) None,
                                 field_description = d\<rparr>) evs)),
              s1))"

section \<open>The search-extractions tool\<close>



record search_args =
  phrase :: "string option"
  extType :: "string option"
  limit :: limit_arg
  personaIds :: "rat list option"















section \<open>The build-query tool\<close>

text \<open>
  The part of \<^verbatim>\<open>build-query\<close> that writes the query, once the type is found and the
  fields are checked. \<open>filterStr\<close> is the text the handler computes from the entries of
  a non-empty \<^verbatim>\<open>filter\<close> argument (\<open>None\<close> when the argument is absent or has no
  keys). The guard of the limit is
  \<^verbatim>\<open>limit !== undefined && Number.isInteger(limit) && limit > 0\<close>.
\<close>

definition limitParams :: "(rat \<Rightarrow> string) \<Rightarrow> limit_arg \<Rightarrow> string list" where
  "limitParams other a =
     (case a of
        LimitNumber q \<Rightarrow>
          if of_int \<lfloor>q\<rfloor> = q \<and> q > 0 then [''limit: '' @ numberToString other (min q 100)]
          else []
      | _ \<Rightarrow> [])"

definition filterParams :: "string option \<Rightarrow> string list" where
  "filterParams filterStr =
     (case filterStr of
        None \<Rightarrow> []
      | Some f \<Rightarrow> if f \<noteq> [] then [''where: {'' @ f @ ''}''] else [])"

definition buildQueryString ::
  "(rat \<Rightarrow> string) \<Rightarrow> string \<Rightarrow> string \<Rightarrow> string list \<Rightarrow> limit_arg \<Rightarrow> string option \<Rightarrow> string" where
  "buildQueryString other selectedTypeName typeName fieldNames a filterStr =
     (let params = limitParams other a @ filterParams filterStr;
          queryParams = (if length params > 0 then ''('' @ join '', '' params @ '')'' else [])
      in trim (''query Get'' @ selectedTypeName @ '' { '' @ typeName @ queryParams
               @ '' { '' @ join (nl @ ''    '') fieldNames @ '' } }''))"

section \<open>Example inputs\<close>

definition plainOther :: "rat \<Rightarrow> string" where
  "plainOther q = ''(number)''"

definition scalarField :: "string \<Rightarrow> GraphQLField" where
  "scalarField n =
     \<lparr>field_name = n, field_type = GraphQLOutputType ''SCALAR'' (Some ''String'') None,
      field_description = None\<rparr>"


definition extractionType :: "GraphQLField list \<Rightarrow> error + introspected_type option" where
  "extractionType fs = Inr (Some \<lparr>t_fields = Some fs, t_inputFields = None, t_enumValues = None\<rparr>)"



section \<open>Field-similarity matcher\<close>

subsection \<open>The distance as the source computes it\<close>

text \<open>
  \<^verbatim>\<open>levenshteinDistance\<close> fills \<^verbatim>\<open>matrix: number[][]\<close>, one row for each prefix of
  \<open>b\<close> and one column for each prefix of \<open>a\<close>. An assignment \<^verbatim>\<open>row[j] = v\<close> with
  \<open>j\<close> the length of the row appends to it, as in JavaScript.
\<close>

definition setAt :: "nat list \<Rightarrow> nat \<Rightarrow> nat \<Rightarrow> nat list" where
  "setAt row j v = (if j < length row then row[j := v] else row @ [v])"

definition assignCell :: "nat list list \<Rightarrow> nat \<Rightarrow> nat \<Rightarrow> nat \<Rightarrow> nat list list" where
  "assignCell matrix i j v = matrix[i := setAt (matrix ! i) j v]"

text \<open>The value written to \<^verbatim>\<open>matrix[i][j]\<close> in the nested loops.\<close>

definition cellValue :: "string \<Rightarrow> string \<Rightarrow> nat list list \<Rightarrow> nat \<Rightarrow> nat \<Rightarrow> nat" where
  "cellValue a b matrix i j =
     (if b ! (i - 1) = a ! (j - 1) then matrix ! (i - 1) ! (j - 1)
      else min (matrix ! (i - 1) ! (j - 1) + 1)
             (min (matrix ! i ! (j - 1) + 1) (matrix ! (i - 1) ! j + 1)))"

text \<open>
  The three loops: \<^verbatim>\<open>matrix[i] = [i]\<close> for \<open>i\<close> up to the length of \<open>b\<close>, each
  at the end of the array, which appends the row; \<^verbatim>\<open>matrix[0][j] = j\<close> for \<open>j\<close> up to
  the length of \<open>a\<close>; then the cells, row by row.
\<close>

definition initialRows :: "string \<Rightarrow> nat list list" where
  "initialRows b = fold (\<lambda>i matrix. matrix @ [[i]]) [0..<Suc (length b)] []"

definition firstRow :: "string \<Rightarrow> nat list list \<Rightarrow> nat list list" where
  "firstRow a matrix = fold (\<lambda>j m. assignCell m 0 j j) [0..<Suc (length a)] matrix"

definition fillRow :: "string \<Rightarrow> string \<Rightarrow> nat \<Rightarrow> nat list list \<Rightarrow> nat list list" where
  "fillRow a b i matrix =
     fold (\<lambda>j m. assignCell m i j (cellValue a b m i j)) [1..<Suc (length a)] matrix"

definition levenshteinMatrix :: "string \<Rightarrow> string \<Rightarrow> nat list list" where
  "levenshteinMatrix a b =
     fold (fillRow a b) [1..<Suc (length b)] (firstRow a (initialRows b))"

definition levenshteinDistance :: "string \<Rightarrow> string \<Rightarrow> nat" where
  "levenshteinDistance a b = levenshteinMatrix a b ! length b ! length a"

subsection \<open>The edit distance\<close>

text \<open>
  \<open>edits xs ys n\<close>: \<open>ys\<close> is obtained from \<open>xs\<close> with \<open>n\<close> insertions, deletions and
  substitutions of single characters. The Levenshtein distance is the least such \<open>n\<close>;
  \<open>editDistance\<close> is its usual recursive definition.
\<close>

inductive edits :: "'a list \<Rightarrow> 'a list \<Rightarrow> nat \<Rightarrow> bool" where
  Done: "edits [] [] 0"
| Keep: "edits xs ys n \<Longrightarrow> edits (x # xs) (x # ys) n"
| Substitute: "edits xs ys n \<Longrightarrow> edits (x # xs) (y # ys) (Suc n)"
| Delete: "edits xs ys n \<Longrightarrow> edits (x # xs) ys (Suc n)"
| Insert: "edits xs ys n \<Longrightarrow> edits xs (y # ys) (Suc n)"

fun editDistance :: "'a list \<Rightarrow> 'a list \<Rightarrow> nat" where
  "editDistance [] ys = length ys"
| "editDistance (x # xs) [] = Suc (length xs)"
| "editDistance (x # xs) (y # ys) =
     min (editDistance xs (y # ys) + 1)
       (min (editDistance (x # xs) ys + 1)
          (editDistance xs ys + (if x = y then 0 else 1)))"

text \<open>The recurrence of the source's nested loops, on the lengths of the prefixes.\<close>

fun prefixDistance :: "string \<Rightarrow> string \<Rightarrow> nat \<Rightarrow> nat \<Rightarrow> nat" where
  "prefixDistance a b 0 j = j"
| "prefixDistance a b (Suc i) 0 = Suc i"
| "prefixDistance a b (Suc i) (Suc j) =
     (if b ! i = a ! j then prefixDistance a b i j
      else min (prefixDistance a b i j + 1)
             (min (prefixDistance a b (Suc i) j + 1) (prefixDistance a b i (Suc j) + 1)))"

subsection \<open>Suggestions\<close>

text \<open>
  \<^verbatim>\<open>findSimilarFields\<close>. \<^verbatim>\<open>Array.prototype.sort\<close> with the comparator
  \<^verbatim>\<open>dist(a) - dist(b)\<close> is a stable sort by the distance. A failure of the lookup is
  caught and gives the empty list.
\<close>

definition findSimilarFields ::
  "string \<Rightarrow> string \<Rightarrow> nat \<Rightarrow> (error + introspected_type option) \<Rightarrow> server_state
     \<Rightarrow> string list \<times> server_state" where
  "findSimilarFields typeName fieldName maxDistance response s =
     (case getTypeFields typeName response s of
        (Inl e, s') \<Rightarrow> ([], s')
      | (Inr fs, s') \<Rightarrow>
          (let fieldNames = map field_name fs;
               similar =
                 sort_key
                   (\<lambda>a. levenshteinDistance (toLowerCase a) (toLowerCase fieldName))
                   (filter
                      (\<lambda>name.
                         let dist = levenshteinDistance (toLowerCase name) (toLowerCase fieldName)
                         in dist > 0 \<and> dist \<le> maxDistance)
                      fieldNames)
           in (take 3 similar, s')))"

text \<open>The callers leave \<^verbatim>\<open>maxDistance\<close> out, which makes it 3.\<close>

definition findSimilarFieldsDefault ::
  "string \<Rightarrow> string \<Rightarrow> (error + introspected_type option) \<Rightarrow> server_state
     \<Rightarrow> string list \<times> server_state" where
  "findSimilarFieldsDefault typeName fieldName response s =
     findSimilarFields typeName fieldName 3 response s"

definition crowdedType :: "error + introspected_type option" where
  "crowdedType =
     extractionType [scalarField ''summr'', scalarField ''summrys'', scalarField ''sammry'',
       scalarField ''summary'']"

definition usualType :: "error + introspected_type option" where
  "usualType =
     extractionType [scalarField ''id'', scalarField ''summary'', scalarField ''Summery'',
       scalarField ''text'']"

text \<open>
  The matcher in the words of the specification: the case-insensitive edit distance of a
  field name to the given name, and the field names within the maximal distance.
\<close>

definition nameDistance :: "string \<Rightarrow> string \<Rightarrow> nat" where
  "nameDistance fieldName n = editDistance (toLowerCase n) (toLowerCase fieldName)"

definition candidates :: "string \<Rightarrow> nat \<Rightarrow> string list \<Rightarrow> string list" where
  "candidates fieldName maxDistance names =
     filter (\<lambda>n. 0 < nameDistance fieldName n \<and> nameDistance fieldName n \<le> maxDistance) names"

text \<open>The matrix while the loops run: the rows that are complete, and the rows not yet reached.\<close>

definition fullRow :: "string \<Rightarrow> string \<Rightarrow> nat \<Rightarrow> nat list" where
  "fullRow a b i = map (prefixDistance a b i) [0..<Suc (length a)]"

definition rowsDone :: "string \<Rightarrow> string \<Rightarrow> nat \<Rightarrow> nat list list" where
  "rowsDone a b i = map (fullRow a b) [0..<i]"

definition rowsLeft :: "string \<Rightarrow> nat \<Rightarrow> nat list list" where
  "rowsLeft b i = map (\<lambda>k. [k]) [i..<Suc (length b)]"

chapter \<open>Properties\<close>

section \<open>The display form of type references\<close>

lemma formatTypeForDisplay_nonempty: "formatTypeForDisplay r \<noteq> []"
  by (induction r rule: formatTypeForDisplay.induct) (auto split: option.splits)

lemma chainBase_not_wrapper:
  "chainBase t = Some b \<Longrightarrow> type_kind b \<noteq> ''NON_NULL'' \<and> type_kind b \<noteq> ''LIST''"
  by (induction t rule: chainBase.induct) (auto split: if_splits option.splits)

lemma formatTypeForDisplay_layers:
  "chainBase t = Some b \<Longrightarrow>
   formatTypeForDisplay (Some t) =
     replicate (count_list (layers t) ListOf) CHR ''['' @ formatTypeForDisplay (Some b)
       @ map closer (rev (layers t))"
proof (induction t rule: chainBase.induct)
  case (1 k n t)
  show ?case
  proof (cases "k = ''NON_NULL'' \<or> k = ''LIST''")
    case False
    with 1(2) show ?thesis by auto
  next
    case True
    with 1(2) obtain u where u: "t = Some u" "chainBase u = Some b"
      by (auto split: option.splits)
    from 1(1)[OF True u] have
      "formatTypeForDisplay (Some u) =
         replicate (count_list (layers u) ListOf) CHR ''['' @ formatTypeForDisplay (Some b)
           @ map closer (rev (layers u))" .
    with True u show ?thesis by auto
  qed
qed

text \<open>
  Claim C5. For a reference that is a chain of NON_NULL and LIST wrappers around a named
  type \<open>X\<close> (a name is not empty), the display form is one opening bracket per LIST
  layer, then \<open>X\<close>, then the closing marks of the layers from the innermost outwards
  (\<open>!\<close> for NON_NULL, \<open>]\<close> for LIST): exactly \<open>X\<close>, one \<open>!\<close> per NON_NULL layer and
  one bracket pair per LIST layer.
  When the name at the end of the chain is absent the placeholder \<open>UnnamedType\<close> stands
  in its place, a null reference is shown as \<open>Unknown\<close>, and the result is never empty.
\<close>

theorem formatTypeForDisplay_chain:
  "(chainBase t = Some b \<and> type_name b = Some X \<and> X \<noteq> [] \<longrightarrow>
      formatTypeForDisplay (Some t) =
        replicate (count_list (layers t) ListOf) CHR ''['' @ X @ map closer (rev (layers t))
      \<and> length (formatTypeForDisplay (Some t)) =
        length X + count_list (layers t) NonNull + 2 * count_list (layers t) ListOf)
   \<and> (chainBase t = Some b \<and> type_name b = None \<longrightarrow>
      formatTypeForDisplay (Some t) =
        replicate (count_list (layers t) ListOf) CHR ''['' @ ''UnnamedType''
          @ map closer (rev (layers t)))
   \<and> formatTypeForDisplay None = ''Unknown''
   \<and> formatTypeForDisplay r \<noteq> []"
proof -
  have len: "length (layers t) = count_list (layers t) NonNull + count_list (layers t) ListOf"
    for t
  proof (induction "layers t" arbitrary: t)
    case Nil
    then show ?case by simp
  next
    case (Cons w ws)
    then show ?case
      by (cases t) (auto split: if_splits option.splits)
  qed
  have named: "formatTypeForDisplay (Some b) = X"
    if "chainBase t = Some b" "type_name b = Some X" "X \<noteq> []"
    using that chainBase_not_wrapper[OF that(1)] by (cases b) auto
  have unnamed: "formatTypeForDisplay (Some b) = ''UnnamedType''"
    if "chainBase t = Some b" "type_name b = None"
    using that chainBase_not_wrapper[OF that(1)] by (cases b) auto
  show ?thesis
    using formatTypeForDisplay_layers[of t b] named unnamed len[of t]
      formatTypeForDisplay_nonempty[of r]
    by auto
qed

theorem formatTypeForDisplay_chain_witness:
  "chainBase exampleListOfInt = Some (GraphQLOutputType ''SCALAR'' (Some ''Int'') None)
   \<and> formatTypeForDisplay (Some exampleListOfInt) = ''[Int!]!''
   \<and> length (formatTypeForDisplay (Some exampleListOfInt)) = 7
   \<and> chainBase exampleUnnamed = Some (GraphQLOutputType ''OBJECT'' None None)
   \<and> formatTypeForDisplay (Some exampleUnnamed) = ''[UnnamedType]''"
  using formatTypeForDisplay_chain[of exampleListOfInt
      "GraphQLOutputType ''SCALAR'' (Some ''Int'') None" "''Int''" None]
    formatTypeForDisplay_chain[of exampleUnnamed
      "GraphQLOutputType ''OBJECT'' None None" "''Int''" None]
  by (simp add: exampleListOfInt_def exampleUnnamed_def)

section \<open>The schema cache\<close>

lemma getSchemaInfo_fresh:
  "cachedSchema s = Some c \<Longrightarrow> now - fetchedAt c < SCHEMA_CACHE_TTL_MS \<Longrightarrow>
   getSchemaInfo now response s = (Inr (data c), s)"
  by (simp add: getSchemaInfo_def)

lemma getSchemaInfo_refetch:
  "cachedSchema s = None \<or> (\<exists>c. cachedSchema s = Some c \<and> SCHEMA_CACHE_TTL_MS \<le> now - fetchedAt c) \<Longrightarrow>
   getSchemaInfo now response s =
     (case response of
        Inr (d, stored) \<Rightarrow>
          (Inr d, s\<lparr>sent := sent s @ [IntrospectionQuery],
                     cachedSchema := Some \<lparr>data = d, fetchedAt = stored\<rparr>\<rparr>)
      | Inl e \<Rightarrow> (Inl e, s\<lparr>sent := sent s @ [IntrospectionQuery]\<rparr>))"
  by (auto simp: getSchemaInfo_def Let_def split: sum.splits option.splits)

text \<open>
  Claim C3. The window is 30 minutes. A snapshot younger than the window is returned as
  it is and the state, request log included, does not change. Starting without a fresh
  snapshot, a successful call followed by a call within the window of the stored time
  both return the same data and exactly one introspection request is issued in total.
  A call at or after the end of the window issues a new introspection request.
\<close>

theorem getSchemaInfo_ttl:
  "SCHEMA_CACHE_TTL_MS = 1800000
   \<and> (cachedSchema s = Some c \<and> now - fetchedAt c < SCHEMA_CACHE_TTL_MS \<longrightarrow>
        getSchemaInfo now response s = (Inr (data c), s))
   \<and> ((cachedSchema s = None
         \<or> (\<exists>c. cachedSchema s = Some c \<and> SCHEMA_CACHE_TTL_MS \<le> now - fetchedAt c))
        \<and> now' - stored < SCHEMA_CACHE_TTL_MS \<longrightarrow>
        (case getSchemaInfo now (Inr (d, stored)) s of (r1, s1) \<Rightarrow>
           case getSchemaInfo now' response' s1 of (r2, s2) \<Rightarrow>
             r1 = Inr d \<and> r2 = Inr d \<and> s2 = s1 \<and> sent s2 = sent s @ [IntrospectionQuery]))
   \<and> (cachedSchema s = Some c \<and> SCHEMA_CACHE_TTL_MS \<le> now - fetchedAt c \<longrightarrow>
        sent (snd (getSchemaInfo now response s)) = sent s @ [IntrospectionQuery])"
proof -
  have ttl: "SCHEMA_CACHE_TTL_MS = 1800000"
    by (simp add: SCHEMA_CACHE_TTL_MS_def)
  have twice:
    "case getSchemaInfo now (Inr (d, stored)) s of (r1, s1) \<Rightarrow>
       case getSchemaInfo now' response' s1 of (r2, s2) \<Rightarrow>
         r1 = Inr d \<and> r2 = Inr d \<and> s2 = s1 \<and> sent s2 = sent s @ [IntrospectionQuery]"
    if miss: "cachedSchema s = None
        \<or> (\<exists>c. cachedSchema s = Some c \<and> SCHEMA_CACHE_TTL_MS \<le> now - fetchedAt c)"
      and window: "now' - stored < SCHEMA_CACHE_TTL_MS"
  proof -
    let ?s1 = "s\<lparr>sent := sent s @ [IntrospectionQuery],
                  cachedSchema := Some \<lparr>data = d, fetchedAt = stored\<rparr>\<rparr>"
    have first: "getSchemaInfo now (Inr (d, stored)) s = (Inr d, ?s1)"
      using getSchemaInfo_refetch[OF miss, of "Inr (d, stored)"] by simp
    have second: "getSchemaInfo now' response' ?s1 = (Inr d, ?s1)"
      using getSchemaInfo_fresh[of ?s1 "\<lparr>data = d, fetchedAt = stored\<rparr>" now' response'] window
      by simp
    show ?thesis by (simp add: first second)
  qed
  have expired: "sent (snd (getSchemaInfo now response s)) = sent s @ [IntrospectionQuery]"
    if "cachedSchema s = Some c" "SCHEMA_CACHE_TTL_MS \<le> now - fetchedAt c"
    using getSchemaInfo_refetch[of s now response] that
    by (auto split: sum.splits)
  show ?thesis
  proof (intro conjI impI)
    show "SCHEMA_CACHE_TTL_MS = 1800000" by (rule ttl)
  next
    assume "cachedSchema s = Some c \<and> now - fetchedAt c < SCHEMA_CACHE_TTL_MS"
    then show "getSchemaInfo now response s = (Inr (data c), s)"
      by (simp add: getSchemaInfo_fresh)
  next
    assume "(cachedSchema s = None
         \<or> (\<exists>c. cachedSchema s = Some c \<and> SCHEMA_CACHE_TTL_MS \<le> now - fetchedAt c))
        \<and> now' - stored < SCHEMA_CACHE_TTL_MS"
    then show "case getSchemaInfo now (Inr (d, stored)) s of (r1, s1) \<Rightarrow>
           case getSchemaInfo now' response' s1 of (r2, s2) \<Rightarrow>
             r1 = Inr d \<and> r2 = Inr d \<and> s2 = s1 \<and> sent s2 = sent s @ [IntrospectionQuery]"
      using twice by simp
  next
    assume "cachedSchema s = Some c \<and> SCHEMA_CACHE_TTL_MS \<le> now - fetchedAt c"
    then show "sent (snd (getSchemaInfo now response s)) = sent s @ [IntrospectionQuery]"
      using expired by simp
  qed
qed

theorem getSchemaInfo_ttl_witness:
  "cachedSchema staleState = Some \<lparr>data = JNull, fetchedAt = 0\<rparr>
   \<and> (1799999 :: int) - fetchedAt \<lparr>data = JNull, fetchedAt = 0\<rparr> < SCHEMA_CACHE_TTL_MS
   \<and> getSchemaInfo 1799999 (Inl (DownstreamError ''unreachable'')) staleState
      = (Inr JNull, staleState)
   \<and> cachedSchema emptyState = None
   \<and> (5000 :: int) - 70 < SCHEMA_CACHE_TTL_MS
   \<and> (case getSchemaInfo 50 (Inr (exampleSchema, 70)) emptyState of (r1, s1) \<Rightarrow>
         case getSchemaInfo 5000 (Inl (DownstreamError ''unreachable'')) s1 of (r2, s2) \<Rightarrow>
           r1 = Inr exampleSchema \<and> r2 = Inr exampleSchema \<and> s2 = s1
           \<and> sent s2 = sent emptyState @ [IntrospectionQuery])
   \<and> SCHEMA_CACHE_TTL_MS \<le> 1800000 - fetchedAt \<lparr>data = JNull, fetchedAt = 0\<rparr>
   \<and> sent (snd (getSchemaInfo 1800000 (Inr (exampleSchema, 1800001)) staleState))
      = sent staleState @ [IntrospectionQuery]"
proof -
  have c: "cachedSchema staleState = Some \<lparr>data = JNull, fetchedAt = 0\<rparr>"
    by (simp add: staleState_def)
  have e: "cachedSchema emptyState = None"
    by (simp add: emptyState_def)
  have young: "(1799999 :: int) - fetchedAt \<lparr>data = JNull, fetchedAt = 0\<rparr> < SCHEMA_CACHE_TTL_MS"
    by (simp add: SCHEMA_CACHE_TTL_MS_def)
  have window: "(5000 :: int) - 70 < SCHEMA_CACHE_TTL_MS"
    by (simp add: SCHEMA_CACHE_TTL_MS_def)
  have old: "SCHEMA_CACHE_TTL_MS \<le> 1800000 - fetchedAt \<lparr>data = JNull, fetchedAt = 0\<rparr>"
    by (simp add: SCHEMA_CACHE_TTL_MS_def)
  note hit = getSchemaInfo_ttl[of staleState "\<lparr>data = JNull, fetchedAt = 0\<rparr>" 1799999
      "Inl (DownstreamError ''unreachable'')" 0 0 JNull "Inl (DownstreamError ''unreachable'')",
      THEN conjunct2, THEN conjunct1, rule_format, OF conjI, OF c young]
  note twice = getSchemaInfo_ttl[of emptyState "\<lparr>data = JNull, fetchedAt = 0\<rparr>" 50
      "Inl (DownstreamError ''unreachable'')" 5000 70 exampleSchema
      "Inl (DownstreamError ''unreachable'')",
      THEN conjunct2, THEN conjunct2, THEN conjunct1, rule_format, OF conjI, OF disjI1, OF e window]
  note expired = getSchemaInfo_ttl[of staleState "\<lparr>data = JNull, fetchedAt = 0\<rparr>" 1800000
      "Inr (exampleSchema, 1800001)" 0 0 JNull "Inl (DownstreamError ''unreachable'')",
      THEN conjunct2, THEN conjunct2, THEN conjunct2, rule_format, OF conjI, OF c old]
  from hit have hit': "getSchemaInfo 1799999 (Inl (DownstreamError ''unreachable'')) staleState
      = (Inr JNull, staleState)"
    by simp
  show ?thesis
    by (intro conjI c e young window old hit' twice expired)
qed

text \<open>
  Claim C8. When the introspection request of a refresh fails, the call throws that
  error (it does not return the stale snapshot), and the cached snapshot and its time
  stamp are what they were before the call. More generally a call that throws leaves the
  cache as it was, and the error it throws is the one the request failed with.
\<close>

theorem getSchemaInfo_failure:
  "cachedSchema (snd (getSchemaInfo now (Inl e) s)) = cachedSchema s
   \<and> ((cachedSchema s = None
         \<or> (\<exists>c. cachedSchema s = Some c \<and> SCHEMA_CACHE_TTL_MS \<le> now - fetchedAt c)) \<longrightarrow>
        fst (getSchemaInfo now (Inl e) s) = Inl e)
   \<and> (fst (getSchemaInfo now response s) = Inl e' \<longrightarrow>
        response = Inl e' \<and> cachedSchema (snd (getSchemaInfo now response s)) = cachedSchema s)"
  by (auto simp: getSchemaInfo_def Let_def split: sum.splits option.splits)

theorem getSchemaInfo_failure_witness:
  "cachedSchema staleState = Some \<lparr>data = JNull, fetchedAt = 0\<rparr>
   \<and> SCHEMA_CACHE_TTL_MS \<le> 1800000 - fetchedAt \<lparr>data = JNull, fetchedAt = 0\<rparr>
   \<and> fst (getSchemaInfo 1800000 (Inl (DownstreamError ''unreachable'')) staleState)
      = Inl (DownstreamError ''unreachable'')
   \<and> cachedSchema (snd (getSchemaInfo 1800000 (Inl (DownstreamError ''unreachable'')) staleState))
      = cachedSchema staleState"
proof -
  have c: "cachedSchema staleState = Some \<lparr>data = JNull, fetchedAt = 0\<rparr>"
    by (simp add: staleState_def)
  have old: "SCHEMA_CACHE_TTL_MS \<le> 1800000 - fetchedAt \<lparr>data = JNull, fetchedAt = 0\<rparr>"
    by (simp add: SCHEMA_CACHE_TTL_MS_def)
  have miss: "cachedSchema staleState = None
      \<or> (\<exists>c. cachedSchema staleState = Some c \<and> SCHEMA_CACHE_TTL_MS \<le> 1800000 - fetchedAt c)"
    using c old by blast
  note T = getSchemaInfo_failure[of 1800000 "DownstreamError ''unreachable''" staleState
      "Inl (DownstreamError ''unreachable'')" "DownstreamError ''unreachable''"]
  note thrown = T[THEN conjunct2, THEN conjunct1, rule_format, OF miss]
  note kept = T[THEN conjunct2, THEN conjunct2, rule_format, OF thrown, THEN conjunct2]
  show ?thesis
    by (intro conjI c old thrown kept)
qed

section \<open>Browsable types\<close>








section \<open>The run-query tool\<close>

text \<open>
  Claim C1. When the trimmed, lower-cased query starts with \<open>mutation\<close> or contains
  \<open>mutation {\<close>, the tool answers with the error result that says mutations are blocked
  and the state is the one before the call: nothing is sent to the endpoint.
\<close>

theorem run_query_blocks_mutation:
  assumes "startsWith (toLowerCase (trim q)) ''mutation''
           \<or> includesStr (toLowerCase (trim q)) ''mutation {''"
  shows "run_query onError stringify (Some q) response s =
           (\<lparr>content = [mutationBlockedText], isError = True\<rparr>, s)
         \<and> isError (fst (run_query onError stringify (Some q) response s))
         \<and> sent (snd (run_query onError stringify (Some q) response s)) = sent s"
proof -
  have "q \<noteq> []"
    using assms by (auto simp: trim_def toLowerCase_def startsWith_def)
  then show ?thesis
    using assms by (simp add: run_query_def)
qed

theorem run_query_blocks_mutation_witness:
  "(startsWith (toLowerCase (trim ''  Mutation { delete_interview { id } } ''))  ''mutation''
    \<or> includesStr (toLowerCase (trim ''  Mutation { delete_interview { id } } '')) ''mutation {'')
   \<and> run_query plainOnError plainStringify (Some ''  Mutation { delete_interview { id } } '')
        (Inr JNull) emptyState =
        (\<lparr>content = [mutationBlockedText], isError = True\<rparr>, emptyState)
   \<and> sent (snd (run_query plainOnError plainStringify (Some ''query A { x } MUTATION { y }'')
        (Inr JNull) emptyState)) = sent emptyState"
proof -
  have h1: "startsWith (toLowerCase (trim ''  Mutation { delete_interview { id } } '')) ''mutation''
    \<or> includesStr (toLowerCase (trim ''  Mutation { delete_interview { id } } '')) ''mutation {''"
    by code_simp
  have h2: "startsWith (toLowerCase (trim ''query A { x } MUTATION { y }'')) ''mutation''
    \<or> includesStr (toLowerCase (trim ''query A { x } MUTATION { y }'')) ''mutation {''"
    by code_simp
  note T1 = run_query_blocks_mutation[OF h1, of plainOnError plainStringify "Inr JNull" emptyState,
      THEN conjunct1]
  note T2 = run_query_blocks_mutation[OF h2, of plainOnError plainStringify "Inr JNull" emptyState,
      THEN conjunct2, THEN conjunct2]
  show ?thesis
    by (intro conjI h1 T1 T2)
qed

section \<open>Printing and parsing integers\<close>








lemma numberToString_int:
  "\<bar>i\<bar> \<le> 2 ^ 53 \<Longrightarrow> numberToString other (of_int i) = decimalInt i"
proof -
  assume "\<bar>i\<bar> \<le> 2 ^ 53"
  then have "\<bar>of_int i :: rat\<bar> \<le> of_int (2 ^ 53)"
    by (metis of_int_abs of_int_le_iff)
  then show ?thesis
    by (simp add: numberToString_def)
qed




section \<open>Limit guardrails\<close>




section \<open>The limit of build-query\<close>

lemma isInteger_floor: "(of_int \<lfloor>q\<rfloor> = q) = (q \<in> \<int>)" for q :: rat
  by (metis Ints_of_int floor_of_int Ints_cases)

lemma limitParams_omitted:
  "a = LimitAbsent \<or> a = LimitText t \<or> (a = LimitNumber q \<and> (q \<le> 0 \<or> q \<notin> \<int>)) \<Longrightarrow>
   limitParams other a = []"
  by (auto simp: limitParams_def isInteger_floor)

lemma limitParams_positive:
  assumes "0 < i"
  shows "limitParams other (LimitNumber (of_int i)) = [''limit: '' @ decimalInt (min i 100)]"
proof -
  have m: "min (of_int i :: rat) 100 = of_int (min i 100)"
    by (simp add: min_def)
  have "\<bar>min i 100\<bar> \<le> 2 ^ 53"
    using assms by simp
  then have "numberToString other (of_int (min i 100)) = decimalInt (min i 100)"
    by (rule numberToString_int)
  then show ?thesis
    using assms by (simp add: limitParams_def m)
qed

text \<open>
  Claim C10. A limit that is absent, not a number, zero, negative or not an integer adds
  nothing to the parameters of the generated query: the query is written with the filter
  alone, or without parentheses when there is no filter. A positive integer limit is
  written first, as \<open>limit: n\<close> with \<open>n\<close> the smaller of the limit and 100.
\<close>

theorem buildQuery_limit:
  "((a = LimitAbsent \<or> a = LimitText t \<or> (a = LimitNumber q \<and> (q \<le> 0 \<or> q \<notin> \<int>))) \<longrightarrow>
      limitParams other a = []
      \<and> buildQueryString other selectedTypeName typeName fieldNames a filterStr =
          trim (''query Get'' @ selectedTypeName @ '' { '' @ typeName
            @ (if filterParams filterStr = [] then []
               else ''('' @ join '', '' (filterParams filterStr) @ '')'')
            @ '' { '' @ join (nl @ ''    '') fieldNames @ '' } }''))
   \<and> (0 < i \<longrightarrow>
      limitParams other (LimitNumber (of_int i)) = [''limit: '' @ decimalInt (min i 100)]
      \<and> buildQueryString other selectedTypeName typeName fieldNames (LimitNumber (of_int i))
            filterStr =
          trim (''query Get'' @ selectedTypeName @ '' { '' @ typeName
            @ ''('' @ join '', '' ((''limit: '' @ decimalInt (min i 100)) # filterParams filterStr)
            @ '')''
            @ '' { '' @ join (nl @ ''    '') fieldNames @ '' } }''))"
proof (intro conjI impI)
  assume h: "a = LimitAbsent \<or> a = LimitText t \<or> (a = LimitNumber q \<and> (q \<le> 0 \<or> q \<notin> \<int>))"
  show "limitParams other a = []"
    using h by (rule limitParams_omitted)
  show "buildQueryString other selectedTypeName typeName fieldNames a filterStr =
          trim (''query Get'' @ selectedTypeName @ '' { '' @ typeName
            @ (if filterParams filterStr = [] then []
               else ''('' @ join '', '' (filterParams filterStr) @ '')'')
            @ '' { '' @ join (nl @ ''    '') fieldNames @ '' } }'')"
    by (simp add: buildQueryString_def limitParams_omitted[OF h])
next
  assume h: "0 < i"
  show "limitParams other (LimitNumber (of_int i)) = [''limit: '' @ decimalInt (min i 100)]"
    using h by (rule limitParams_positive)
  show "buildQueryString other selectedTypeName typeName fieldNames (LimitNumber (of_int i))
            filterStr =
          trim (''query Get'' @ selectedTypeName @ '' { '' @ typeName
            @ ''('' @ join '', '' ((''limit: '' @ decimalInt (min i 100)) # filterParams filterStr)
            @ '')''
            @ '' { '' @ join (nl @ ''    '') fieldNames @ '' } }'')"
    by (simp add: buildQueryString_def limitParams_positive[OF h])
qed

theorem buildQuery_limit_witness:
  "(LimitNumber (5 / 2) = LimitAbsent \<or> LimitNumber (5 / 2) = LimitText ''''
      \<or> (LimitNumber (5 / 2) = LimitNumber (5 / 2) \<and> ((5 / 2 :: rat) \<le> 0 \<or> (5 / 2 :: rat) \<notin> \<int>)))
   \<and> limitParams plainOther (LimitNumber (5 / 2)) = []
   \<and> buildQueryString plainOther ''extraction'' ''extraction'' [''id'', ''summary'']
        (LimitNumber (5 / 2)) None
      = ''query Getextraction { extraction { id'' @ nl @ ''    summary } }''
   \<and> buildQueryString plainOther ''extraction'' ''extraction'' [''id'', ''summary'']
        (LimitNumber 0) (Some ''sentiment: {_eq: 1}'')
      = ''query Getextraction { extraction(where: {sentiment: {_eq: 1}}) { id'' @ nl
          @ ''    summary } }''
   \<and> (0 :: int) < 10000
   \<and> buildQueryString plainOther ''extraction'' ''extraction'' [''id'', ''summary'']
        (LimitNumber (of_int 10000)) None
      = ''query Getextraction { extraction(limit: 100) { id'' @ nl @ ''    summary } }''
   \<and> buildQueryString plainOther ''extraction'' ''extraction'' [''id'', ''summary'']
        (LimitNumber (of_int 7)) (Some ''sentiment: {_eq: 1}'')
      = ''query Getextraction { extraction(limit: 7, where: {sentiment: {_eq: 1}}) { id'' @ nl
          @ ''    summary } }''"
proof -
  have frac: "(5 / 2 :: rat) \<notin> \<int>"
  proof
    assume "(5 / 2 :: rat) \<in> \<int>"
    then obtain k :: int where "(5 / 2 :: rat) = of_int k" by (auto elim: Ints_cases)
    then have "(of_int 5 :: rat) = of_int (2 * k)" by simp
    then have "5 = 2 * k" by (simp only: of_int_eq_iff)
    then show False by presburger
  qed
  have h1: "LimitNumber (5 / 2) = LimitAbsent \<or> LimitNumber (5 / 2) = LimitText ''''
      \<or> (LimitNumber (5 / 2) = LimitNumber (5 / 2) \<and> ((5 / 2 :: rat) \<le> 0 \<or> (5 / 2 :: rat) \<notin> \<int>))"
    using frac by simp
  have h2: "LimitNumber 0 = LimitAbsent \<or> LimitNumber 0 = LimitText ''''
      \<or> (LimitNumber 0 = LimitNumber 0 \<and> ((0 :: rat) \<le> 0 \<or> (0 :: rat) \<notin> \<int>))"
    by simp
  have h3: "(0 :: int) < 10000" by simp
  have h4: "(0 :: int) < 7" by simp
  have d100: "decimalInt 100 = ''100''" by code_simp
  have d7: "decimalInt 7 = ''7''" by code_simp
  have w: "filterParams (Some ''sentiment: {_eq: 1}'') = [''where: {sentiment: {_eq: 1}}'']"
      "filterParams None = []"
    by (simp_all add: filterParams_def)
  have tr: "trim (''query Getextraction { extraction'' @ x @ '' { id'' @ nl @ ''    summary } }'')
      = ''query Getextraction { extraction'' @ x @ '' { id'' @ nl @ ''    summary } }''" for x
    by (simp add: trim_def isWhiteSpace_def)
  note A = buildQuery_limit[of "LimitNumber (5 / 2)" "''''" "5 / 2" plainOther "''extraction''"
      "''extraction''" "[''id'', ''summary'']" None 10000, THEN conjunct1, rule_format, OF h1]
  note B = buildQuery_limit[of "LimitNumber 0" "''''" 0 plainOther "''extraction''"
      "''extraction''" "[''id'', ''summary'']" "Some ''sentiment: {_eq: 1}''" 10000,
      THEN conjunct1, rule_format, OF h2, THEN conjunct2]
  note C = buildQuery_limit[of "LimitNumber 0" "''''" 0 plainOther "''extraction''"
      "''extraction''" "[''id'', ''summary'']" None 10000,
      THEN conjunct2, rule_format, OF h3, THEN conjunct2]
  note D = buildQuery_limit[of "LimitNumber 0" "''''" 0 plainOther "''extraction''"
      "''extraction''" "[''id'', ''summary'']" "Some ''sentiment: {_eq: 1}''" 7,
      THEN conjunct2, rule_format, OF h4, THEN conjunct2]
  have A2: "buildQueryString plainOther ''extraction'' ''extraction'' [''id'', ''summary'']
        (LimitNumber (5 / 2)) None
      = ''query Getextraction { extraction { id'' @ nl @ ''    summary } }''"
    using A[THEN conjunct2] tr[of "[]"] by (simp add: w)
  have B2: "buildQueryString plainOther ''extraction'' ''extraction'' [''id'', ''summary'']
        (LimitNumber 0) (Some ''sentiment: {_eq: 1}'')
      = ''query Getextraction { extraction(where: {sentiment: {_eq: 1}}) { id'' @ nl
          @ ''    summary } }''"
    using B tr[of "''(where: {sentiment: {_eq: 1}})''"] by (simp add: w)
  have C2: "buildQueryString plainOther ''extraction'' ''extraction'' [''id'', ''summary'']
        (LimitNumber (of_int 10000)) None
      = ''query Getextraction { extraction(limit: 100) { id'' @ nl @ ''    summary } }''"
    using C tr[of "''(limit: 100)''"] by (simp add: w d100)
  have D2: "buildQueryString plainOther ''extraction'' ''extraction'' [''id'', ''summary'']
        (LimitNumber (of_int 7)) (Some ''sentiment: {_eq: 1}'')
      = ''query Getextraction { extraction(limit: 7, where: {sentiment: {_eq: 1}}) { id'' @ nl
          @ ''    summary } }''"
    using D tr[of "''(limit: 7, where: {sentiment: {_eq: 1}})''"] by (simp add: w d7)
  show ?thesis
    by (intro conjI h1 A[THEN conjunct1] A2 B2 h3 C2 D2)
qed

section \<open>The where clause of search-extractions\<close>












section \<open>Bare and quoted values in the where clause\<close>






section \<open>The edit distance\<close>

subsection \<open>The recursive definition gives the least number of edits\<close>

lemma editDistance_Nil2 [simp]: "editDistance xs [] = length xs"
  by (cases xs) simp_all

lemma editDistance_delete: "editDistance (x # xs) ys \<le> editDistance xs ys + 1"
  by (cases ys) simp_all

lemma editDistance_insert: "editDistance xs (y # ys) \<le> editDistance xs ys + 1"
  by (cases xs) simp_all

lemma editDistance_shorter_left: "editDistance xs ys \<le> editDistance (x # xs) ys + 1"
proof (induction ys arbitrary: xs x)
  case Nil
  show ?case by simp
next
  case (Cons y ys)
  have 1: "editDistance xs (y # ys) \<le> editDistance (x # xs) ys + 2"
    using editDistance_insert[of xs y ys] Cons.IH[of xs x] by linarith
  have 2: "editDistance xs (y # ys) \<le> editDistance xs ys + 1"
    by (rule editDistance_insert)
  show ?case
    using 1 2 by (simp add: min_def)
qed

lemma editDistance_shorter_right: "editDistance xs ys \<le> editDistance xs (y # ys) + 1"
proof (induction xs arbitrary: ys y)
  case Nil
  show ?case by simp
next
  case (Cons x xs)
  have 1: "editDistance (x # xs) ys \<le> editDistance xs (y # ys) + 2"
    using editDistance_delete[of x xs ys] Cons.IH[of ys y] by linarith
  have 2: "editDistance (x # xs) ys \<le> editDistance xs ys + 1"
    by (rule editDistance_delete)
  show ?case
    using 1 2 by (simp add: min_def)
qed

lemma min3: "min a (min b c) = a \<or> min a (min b c) = b \<or> min a (min b c) = (c :: nat)"
  by (auto simp: min_def)

lemma edits_insert_all: "edits [] ys (length ys)"
  by (induction ys) (auto intro: edits.intros)

lemma edits_delete_all: "edits xs [] (length xs)"
  by (induction xs) (auto intro: edits.intros)

lemma edits_editDistance: "edits xs ys (editDistance xs ys)"
proof (induction xs ys rule: editDistance.induct)
  case (1 ys)
  show ?case by (simp add: edits_insert_all)
next
  case (2 x xs)
  show ?case using edits_delete_all[of "x # xs"] by simp
next
  case (3 x xs y ys)
  let ?A = "editDistance xs (y # ys) + 1"
  let ?B = "editDistance (x # xs) ys + 1"
  let ?C = "editDistance xs ys + (if x = y then 0 else 1)"
  have d: "editDistance (x # xs) (y # ys) = min ?A (min ?B ?C)"
    by (simp only: editDistance.simps)
  from "3.IH"(1) have A: "edits (x # xs) (y # ys) ?A"
    using edits.Delete[of xs "y # ys" _ x] by simp
  from "3.IH"(2) have B: "edits (x # xs) (y # ys) ?B"
    using edits.Insert[of "x # xs" ys _ y] by simp
  from "3.IH"(3) have C: "edits (x # xs) (y # ys) ?C"
    using edits.Keep[of xs ys _ x] edits.Substitute[of xs ys _ x y] by (cases "x = y") simp_all
  have "min ?A (min ?B ?C) = ?A \<or> min ?A (min ?B ?C) = ?B \<or> min ?A (min ?B ?C) = ?C"
    by (rule min3)
  with A B C show ?case
    unfolding d by (elim disjE) (simp_all only:)
qed

lemma editDistance_least: "edits xs ys n \<Longrightarrow> editDistance xs ys \<le> n"
proof (induction rule: edits.induct)
  case Done
  show ?case by simp
next
  case (Keep xs ys n x)
  then show ?case by (cases xs; cases ys) (simp_all add: min_def)
next
  case (Substitute xs ys n x y)
  have "editDistance (x # xs) (y # ys) \<le> editDistance xs ys + 1"
    by (simp add: min_def)
  with Substitute show ?case by simp
next
  case (Delete xs ys n x)
  with editDistance_delete[of x xs ys] show ?case by simp
next
  case (Insert xs ys n y)
  with editDistance_insert[of xs y ys] show ?case by simp
qed

subsection \<open>Symmetry and reversal\<close>

lemma edits_sym: "edits xs ys n \<Longrightarrow> edits ys xs n"
  by (induction rule: edits.induct) (auto intro: edits.intros)

lemma edits_snoc_keep: "edits xs ys n \<Longrightarrow> edits (xs @ [z]) (ys @ [z]) n"
  by (induction rule: edits.induct) (auto intro: edits.intros)

lemma edits_snoc_substitute: "edits xs ys n \<Longrightarrow> edits (xs @ [z]) (ys @ [w]) (Suc n)"
  by (induction rule: edits.induct) (auto intro: edits.intros)

lemma edits_snoc_delete: "edits xs ys n \<Longrightarrow> edits (xs @ [z]) ys (Suc n)"
  by (induction rule: edits.induct) (auto intro: edits.intros)

lemma edits_snoc_insert: "edits xs ys n \<Longrightarrow> edits xs (ys @ [w]) (Suc n)"
  by (induction rule: edits.induct) (auto intro: edits.intros)

lemma edits_rev: "edits xs ys n \<Longrightarrow> edits (rev xs) (rev ys) n"
  by (induction rule: edits.induct)
    (auto intro: edits.Done edits_snoc_keep edits_snoc_substitute edits_snoc_delete
      edits_snoc_insert)

lemma editDistance_sym: "editDistance xs ys = editDistance ys xs"
  by (meson edits_editDistance edits_sym editDistance_least le_antisym)

lemma editDistance_rev: "editDistance (rev xs) (rev ys) = editDistance xs ys"
proof (rule le_antisym)
  show "editDistance (rev xs) (rev ys) \<le> editDistance xs ys"
    by (meson edits_editDistance edits_rev editDistance_least)
  have "edits (rev (rev xs)) (rev (rev ys)) (editDistance (rev xs) (rev ys))"
    by (rule edits_rev) (rule edits_editDistance)
  then show "editDistance xs ys \<le> editDistance (rev xs) (rev ys)"
    using editDistance_least by fastforce
qed

subsection \<open>The recurrence of the loops\<close>

lemma prefixDistance_editDistance:
  "i \<le> length b \<Longrightarrow> j \<le> length a \<Longrightarrow>
   prefixDistance a b i j = editDistance (rev (take i b)) (rev (take j a))"
proof (induction a b i j rule: prefixDistance.induct)
  case (1 a b j)
  then show ?case by simp
next
  case (2 a b i)
  then show ?case by simp
next
  case (3 a b i j)
  from 3(5) have tb: "rev (take (Suc i) b) = b ! i # rev (take i b)"
    by (simp add: take_Suc_conv_app_nth)
  from 3(6) have ta: "rev (take (Suc j) a) = a ! j # rev (take j a)"
    by (simp add: take_Suc_conv_app_nth)
  let ?xs = "rev (take i b)" and ?ys = "rev (take j a)"
  show ?case
  proof (cases "b ! i = a ! j")
    case True
    with 3 have "prefixDistance a b i j = editDistance ?xs ?ys" by simp
    moreover have "editDistance ?xs ?ys \<le> editDistance ?xs (a ! j # ?ys) + 1"
      by (rule editDistance_shorter_right)
    moreover have "editDistance ?xs ?ys \<le> editDistance (a ! j # ?xs) ?ys + 1"
      by (rule editDistance_shorter_left)
    ultimately show ?thesis
      using True by (simp add: tb ta min_def)
  next
    case False
    with 3 have "prefixDistance a b i j = editDistance ?xs ?ys"
      "prefixDistance a b (Suc i) j = editDistance (b ! i # ?xs) ?ys"
      "prefixDistance a b i (Suc j) = editDistance ?xs (a ! j # ?ys)"
      by (simp_all add: tb ta)
    then show ?thesis
      using False by (simp add: tb ta min_def)
  qed
qed

subsection \<open>The matrix\<close>

lemma fold_append_rows: "fold (\<lambda>i matrix. matrix @ [[i]]) ks acc = acc @ map (\<lambda>k. [k]) ks"
  by (induction ks arbitrary: acc) simp_all

lemma initialRows_eq: "initialRows b = [0] # rowsLeft b 1"
  by (simp add: initialRows_def fold_append_rows rowsLeft_def upt_conv_Cons del: upt_Suc)

lemma length_rowsDone [simp]: "length (rowsDone a b i) = i"
  by (simp add: rowsDone_def)

lemma firstRow_steps:
  "fold (\<lambda>j m. assignCell m 0 j j) [0..<Suc k] ([0] # rest) = [0..<Suc k] # rest"
proof (induction k)
  case 0
  show ?case by (simp add: assignCell_def setAt_def)
next
  case (Suc k)
  have "fold (\<lambda>j m. assignCell m 0 j j) [0..<Suc (Suc k)] ([0] # rest)
      = assignCell ([0..<Suc k] # rest) 0 (Suc k) (Suc k)"
    using Suc by simp
  also have "\<dots> = [0..<Suc (Suc k)] # rest"
    by (simp add: assignCell_def setAt_def)
  finally show ?case .
qed

lemma firstRow_eq: "firstRow a (initialRows b) = rowsDone a b 1 @ rowsLeft b 1"
proof -
  have "fullRow a b 0 = [0..<Suc (length a)]"
    unfolding fullRow_def by (rule map_idI) simp
  then have "rowsDone a b 1 = [[0..<Suc (length a)]]"
    by (simp add: rowsDone_def)
  then show ?thesis
    by (simp add: firstRow_def initialRows_eq firstRow_steps del: upt_Suc)
qed

lemma fillRow_steps:
  assumes "1 \<le> i" "k \<le> length a"
  shows "fold (\<lambda>j m. assignCell m i j (cellValue a b m i j)) [1..<Suc k]
           (rowsDone a b i @ [i] # rest)
         = rowsDone a b i @ map (prefixDistance a b i) [0..<Suc k] # rest"
  using assms(2)
proof (induction k)
  case 0
  from assms(1) obtain i' where "i = Suc i'" by (cases i) auto
  then show ?case by simp
next
  case (Suc k)
  from assms(1) obtain i' where i: "i = Suc i'" by (cases i) auto
  let ?row = "map (prefixDistance a b i) [0..<Suc k]"
  let ?M = "rowsDone a b i @ ?row # rest"
  have above: "?M ! (i - 1) = fullRow a b i'"
    by (simp add: i nth_append rowsDone_def)
  have here: "?M ! i = ?row"
    by (metis length_rowsDone nth_append_length)
  have k: "k < Suc (length a)" "Suc k < Suc (length a)"
    using Suc.prems by simp_all
  have diag: "fullRow a b i' ! k = prefixDistance a b i' k"
    unfolding fullRow_def using k(1) by (simp del: upt_Suc)
  have up: "fullRow a b i' ! Suc k = prefixDistance a b i' (Suc k)"
    unfolding fullRow_def using k(2) by (simp del: upt_Suc)
  have left: "?row ! k = prefixDistance a b i k"
    by (simp del: upt_Suc)
  have v: "cellValue a b ?M i (Suc k) = prefixDistance a b i (Suc k)"
    unfolding cellValue_def above here
    by (simp add: i diag up left[unfolded i] del: upt_Suc)
  have "fold (\<lambda>j m. assignCell m i j (cellValue a b m i j)) [1..<Suc (Suc k)]
           (rowsDone a b i @ [i] # rest)
      = assignCell ?M i (Suc k) (cellValue a b ?M i (Suc k))"
    using Suc by simp
  also have "\<dots> = rowsDone a b i @ (?row @ [prefixDistance a b i (Suc k)]) # rest"
    unfolding assignCell_def here v
    by (simp add: setAt_def list_update_append del: upt_Suc)
  also have "\<dots> = rowsDone a b i @ map (prefixDistance a b i) [0..<Suc (Suc k)] # rest"
    by simp
  finally show ?case .
qed

lemma fillRow_eq:
  assumes "1 \<le> i" "i \<le> length b"
  shows "fillRow a b i (rowsDone a b i @ rowsLeft b i)
         = rowsDone a b (Suc i) @ rowsLeft b (Suc i)"
proof -
  have "rowsLeft b i = [i] # rowsLeft b (Suc i)"
    using assms(2) by (simp add: rowsLeft_def upt_conv_Cons del: upt_Suc)
  then have "fillRow a b i (rowsDone a b i @ rowsLeft b i)
      = rowsDone a b i @ fullRow a b i # rowsLeft b (Suc i)"
    using fillRow_steps[OF assms(1), of "length a" a b "rowsLeft b (Suc i)"]
    by (simp add: fillRow_def fullRow_def del: upt_Suc)
  also have "\<dots> = rowsDone a b (Suc i) @ rowsLeft b (Suc i)"
    by (simp add: rowsDone_def)
  finally show ?thesis .
qed

lemma fillRows_steps:
  "k \<le> length b \<Longrightarrow>
   fold (fillRow a b) [1..<Suc k] (rowsDone a b 1 @ rowsLeft b 1)
     = rowsDone a b (Suc k) @ rowsLeft b (Suc k)"
proof (induction k)
  case 0
  show ?case by simp
next
  case (Suc k)
  then have "fold (fillRow a b) [1..<Suc (Suc k)] (rowsDone a b 1 @ rowsLeft b 1)
      = fillRow a b (Suc k) (rowsDone a b (Suc k) @ rowsLeft b (Suc k))"
    by simp
  also have "\<dots> = rowsDone a b (Suc (Suc k)) @ rowsLeft b (Suc (Suc k))"
    using Suc.prems by (intro fillRow_eq) simp_all
  finally show ?case .
qed

lemma levenshteinMatrix_eq:
  "levenshteinMatrix a b = map (fullRow a b) [0..<Suc (length b)]"
  using fillRows_steps[of "length b" b a]
  by (simp add: levenshteinMatrix_def firstRow_eq rowsDone_def rowsLeft_def del: upt_Suc)

lemma levenshteinDistance_prefixDistance:
  "levenshteinDistance a b = prefixDistance a b (length b) (length a)"
proof -
  have "levenshteinMatrix a b ! length b = fullRow a b (length b)"
    unfolding levenshteinMatrix_eq by (simp del: upt_Suc)
  then show ?thesis
    by (simp add: levenshteinDistance_def fullRow_def del: upt_Suc)
qed

text \<open>
  The matrix the source builds holds, in row \<open>i\<close> and column \<open>j\<close>, the edit distance
  between the first \<open>i\<close> characters of \<open>b\<close> and the first \<open>j\<close> characters of \<open>a\<close>;
  what the function returns is the edit distance of its arguments.
\<close>

lemma levenshteinDistance_editDistance: "levenshteinDistance a b = editDistance a b"
proof -
  have "levenshteinDistance a b = editDistance (rev b) (rev a)"
    using prefixDistance_editDistance[of "length b" b "length a" a]
    by (simp add: levenshteinDistance_prefixDistance)
  also have "\<dots> = editDistance a b"
    by (simp add: editDistance_rev editDistance_sym[of b a])
  finally show ?thesis .
qed

lemma levenshteinDistance_least_edits:
  "edits a b (levenshteinDistance a b) \<and> (\<forall>n. edits a b n \<longrightarrow> levenshteinDistance a b \<le> n)"
  by (simp add: levenshteinDistance_editDistance edits_editDistance editDistance_least)

section \<open>Suggestions\<close>

lemma findSimilarFields_found:
  assumes "getTypeFields typeName response s = (Inr fs, s')"
  shows "findSimilarFields typeName fieldName maxDistance response s =
           (take 3 (sort_key (nameDistance fieldName)
              (candidates fieldName maxDistance (map field_name fs))), s')"
proof -
  have d: "(\<lambda>a. levenshteinDistance (toLowerCase a) (toLowerCase fieldName))
      = nameDistance fieldName"
    by (rule ext) (simp add: nameDistance_def levenshteinDistance_editDistance)
  show ?thesis
    by (simp add: findSimilarFields_def assms Let_def candidates_def d
        levenshteinDistance_editDistance nameDistance_def[symmetric])
qed

lemma hd_sort_key_first:
  assumes "xs = before @ x # after" "\<forall>n \<in> set xs. m \<le> f n" "f x = m"
    "\<forall>n \<in> set before. f n \<noteq> m"
  shows "hd (sort_key f xs) = x"
proof -
  let ?S = "sort_key f xs"
  have x: "x \<in> set ?S" using assms(1) by simp
  then obtain y ys where S: "?S = y # ys" by (cases ?S) auto
  have "sorted (map f ?S)" by (rule sorted_sort_key)
  with S x have "f y \<le> f x" by auto
  moreover have "y \<in> set xs" using S by (metis list.set_intros(1) set_sort)
  ultimately have y: "f y = m" using assms(2,3) by fastforce
  have "filter (\<lambda>n. f n = m) ?S = filter (\<lambda>n. f n = m) xs"
    by (rule sort_key_stable)
  also have "\<dots> = x # filter (\<lambda>n. f n = m) after"
    using assms(1,3,4) by simp
  finally have "filter (\<lambda>n. f n = m) (y # ys) = x # filter (\<lambda>n. f n = m) after"
    by (simp only: S)
  with y have "y = x" by simp
  with S show ?thesis by simp
qed

lemma candidates_split:
  assumes "names = before @ x # after" "nameDistance fieldName x = 1" "1 \<le> maxDistance"
  shows "candidates fieldName maxDistance names =
           candidates fieldName maxDistance before @ x # candidates fieldName maxDistance after"
  using assms by (simp add: candidates_def)

lemma nameDistance_examples:
  "nameDistance ''summry'' ''id'' = 6"
  "nameDistance ''summry'' ''summary'' = 1"
  "nameDistance ''summry'' ''Summery'' = 1"
  "nameDistance ''summry'' ''text'' = 6"
  "nameDistance ''summry'' ''summr'' = 1"
  "nameDistance ''summry'' ''summrys'' = 1"
  "nameDistance ''summry'' ''sammry'' = 1"
  unfolding nameDistance_def levenshteinDistance_editDistance[symmetric]
  by code_simp+

text \<open>
  Claim C4, as amended. When the fields of the type are fetched, the suggestions are the
  first three of the field names whose case-insensitive edit distance \<open>d\<close> to the given
  name satisfies \<open>0 < d \<le> maxDistance\<close> (3 when the caller gives none), sorted by ascending distance, names at the same
  distance staying in the order of the fields. \<open>summary\<close> is at distance 1 from
  \<open>summry\<close>; a field at distance 1 is the top suggestion when no field listed before it
  is at distance 1 as well. When the lookup fails, the result is the empty list and the
  error is not propagated.
\<close>

theorem findSimilarFields_ranked:
  "(getTypeFields typeName response s = (Inr fs, s') \<longrightarrow>
      findSimilarFields typeName fieldName maxDistance response s =
        (take 3 (sort_key (nameDistance fieldName)
           (candidates fieldName maxDistance (map field_name fs))), s')
      \<and> sorted (map (nameDistance fieldName)
           (sort_key (nameDistance fieldName)
              (candidates fieldName maxDistance (map field_name fs))))
      \<and> (\<forall>k. filter (\<lambda>n. nameDistance fieldName n = k)
                (sort_key (nameDistance fieldName)
                   (candidates fieldName maxDistance (map field_name fs)))
              = filter (\<lambda>n. nameDistance fieldName n = k)
                  (candidates fieldName maxDistance (map field_name fs))))
   \<and> nameDistance ''summry'' ''summary'' = 1
   \<and> (getTypeFields typeName response s = (Inr fs, s')
        \<and> map field_name fs = before @ x # after
        \<and> nameDistance fieldName x = 1 \<and> 1 \<le> maxDistance
        \<and> (\<forall>n \<in> set before. nameDistance fieldName n \<noteq> 1) \<longrightarrow>
        hd (fst (findSimilarFields typeName fieldName maxDistance response s)) = x)
   \<and> (getTypeFields typeName response s = (Inl e, s') \<longrightarrow>
        findSimilarFields typeName fieldName maxDistance response s = ([], s'))
   \<and> findSimilarFieldsDefault typeName fieldName response s =
       findSimilarFields typeName fieldName 3 response s
   \<and> levenshteinDistance a b = editDistance a b
   \<and> edits a b (editDistance a b) \<and> (\<forall>n. edits a b n \<longrightarrow> editDistance a b \<le> n)"
proof (intro conjI impI allI)
  assume "getTypeFields typeName response s = (Inr fs, s')"
  then show "findSimilarFields typeName fieldName maxDistance response s =
        (take 3 (sort_key (nameDistance fieldName)
           (candidates fieldName maxDistance (map field_name fs))), s')"
    by (rule findSimilarFields_found)
next
  show "sorted (map (nameDistance fieldName)
           (sort_key (nameDistance fieldName)
              (candidates fieldName maxDistance (map field_name fs))))"
    by (rule sorted_sort_key)
next
  fix k
  show "filter (\<lambda>n. nameDistance fieldName n = k)
                (sort_key (nameDistance fieldName)
                   (candidates fieldName maxDistance (map field_name fs)))
              = filter (\<lambda>n. nameDistance fieldName n = k)
                  (candidates fieldName maxDistance (map field_name fs))"
    by (rule sort_key_stable)
next
  have "levenshteinDistance ''summary'' ''summry'' = 1"
    by code_simp
  moreover have "toLowerCase ''summary'' = ''summary''" "toLowerCase ''summry'' = ''summry''"
    by code_simp+
  ultimately show "nameDistance ''summry'' ''summary'' = 1"
    by (simp add: nameDistance_def levenshteinDistance_editDistance)
next
  assume h: "getTypeFields typeName response s = (Inr fs, s')
        \<and> map field_name fs = before @ x # after
        \<and> nameDistance fieldName x = 1 \<and> 1 \<le> maxDistance
        \<and> (\<forall>n \<in> set before. nameDistance fieldName n \<noteq> 1)"
  let ?c = "candidates fieldName maxDistance"
  have split: "?c (map field_name fs) = ?c before @ x # ?c after"
    using h candidates_split[of "map field_name fs" before x after fieldName maxDistance]
    by simp
  have low: "\<forall>n \<in> set (?c (map field_name fs)). 1 \<le> nameDistance fieldName n"
    by (auto simp: candidates_def)
  have none: "\<forall>n \<in> set (?c before). nameDistance fieldName n \<noteq> 1"
    using h by (simp add: candidates_def)
  have top: "hd (sort_key (nameDistance fieldName) (?c (map field_name fs))) = x"
    using hd_sort_key_first[OF split low _ none] h by simp
  have "sort_key (nameDistance fieldName) (?c (map field_name fs)) \<noteq> []"
    using split by (metis append_is_Nil_conv list.distinct(1) set_empty set_sort)
  then have "hd (take 3 (sort_key (nameDistance fieldName) (?c (map field_name fs))))
      = hd (sort_key (nameDistance fieldName) (?c (map field_name fs)))"
    by (cases "sort_key (nameDistance fieldName) (?c (map field_name fs))") simp_all
  with top h show "hd (fst (findSimilarFields typeName fieldName maxDistance response s)) = x"
    by (simp add: findSimilarFields_found)
next
  assume "getTypeFields typeName response s = (Inl e, s')"
  then show "findSimilarFields typeName fieldName maxDistance response s = ([], s')"
    by (simp add: findSimilarFields_def)
next
  show "findSimilarFieldsDefault typeName fieldName response s =
       findSimilarFields typeName fieldName 3 response s"
    by (simp add: findSimilarFieldsDefault_def)
next
  show "levenshteinDistance a b = editDistance a b"
    by (rule levenshteinDistance_editDistance)
next
  show "edits a b (editDistance a b)"
    by (rule edits_editDistance)
next
  fix n
  assume "edits a b n"
  then show "editDistance a b \<le> n"
    by (rule editDistance_least)
qed

theorem findSimilarFields_ranked_witness:
  "getTypeFields ''extraction'' usualType emptyState =
     (Inr [scalarField ''id'', scalarField ''summary'', scalarField ''Summery'',
           scalarField ''text''],
      \<lparr>cachedSchema = None, sent = [GetTypeFields ''extraction'']\<rparr>)
   \<and> findSimilarFields ''extraction'' ''summry'' 3 usualType emptyState =
       ([''summary'', ''Summery''], \<lparr>cachedSchema = None, sent = [GetTypeFields ''extraction'']\<rparr>)
   \<and> hd (fst (findSimilarFields ''extraction'' ''summry'' 3 usualType emptyState)) = ''summary''
   \<and> getTypeFields ''extraction'' (Inl (DownstreamError ''unreachable'')) emptyState =
       (Inl (DownstreamError ''unreachable''),
        \<lparr>cachedSchema = None, sent = [GetTypeFields ''extraction'']\<rparr>)
   \<and> findSimilarFields ''extraction'' ''summry'' 3 (Inl (DownstreamError ''unreachable''))
        emptyState = ([], \<lparr>cachedSchema = None, sent = [GetTypeFields ''extraction'']\<rparr>)
   \<and> edits ''ab'' ''b'' 1
   \<and> editDistance ''ab'' ''b'' \<le> 1"
proof -
  let ?fs = "[scalarField ''id'', scalarField ''summary'', scalarField ''Summery'',
           scalarField ''text'']"
  let ?s' = "\<lparr>cachedSchema = None, sent = [GetTypeFields ''extraction'']\<rparr>"
  let ?e = "DownstreamError ''unreachable''"
  have g: "getTypeFields ''extraction'' usualType emptyState = (Inr ?fs, ?s')"
    by (simp add: getTypeFields_def usualType_def extractionType_def emptyState_def)
  have f: "getTypeFields ''extraction'' (Inl ?e) emptyState = (Inl ?e, ?s')"
    by (simp add: getTypeFields_def emptyState_def)
  have names: "map field_name ?fs = [''id''] @ ''summary'' # [''Summery'', ''text'']"
    by (simp add: scalarField_def)
  have ed: "edits ''ab'' ''b'' 1"
    using edits.Delete[OF edits.Keep[OF edits.Done], of "CHR ''a''" "CHR ''b''"] by simp
  note T = findSimilarFields_ranked[of "''extraction''" usualType emptyState ?fs ?s'
      "''summry''" 3 "[''id'']" "''summary''" "[''Summery'', ''text'']" ?e "''ab''" "''b''"]
  note U = findSimilarFields_ranked[of "''extraction''" "Inl ?e" emptyState ?fs ?s'
      "''summry''" 3 "[''id'']" "''summary''" "[''Summery'', ''text'']" ?e "''ab''" "''b''"]
  note T1 = T[THEN conjunct1, rule_format, OF g, THEN conjunct1]
  have pre: "getTypeFields ''extraction'' usualType emptyState = (Inr ?fs, ?s')
        \<and> map field_name ?fs = [''id''] @ ''summary'' # [''Summery'', ''text'']
        \<and> nameDistance ''summry'' ''summary'' = 1 \<and> 1 \<le> (3 :: nat)
        \<and> (\<forall>n \<in> set [''id'']. nameDistance ''summry'' n \<noteq> 1)"
    using g names by (simp add: nameDistance_examples)
  note T3 = T[THEN conjunct2, THEN conjunct2, THEN conjunct1, rule_format, OF pre]
  note U4 = U[THEN conjunct2, THEN conjunct2, THEN conjunct2, THEN conjunct1, rule_format, OF f]
  note T7 = T[THEN conjunct2, THEN conjunct2, THEN conjunct2, THEN conjunct2, THEN conjunct2,
      THEN conjunct2, THEN conjunct2, rule_format, OF ed]
  have T1': "findSimilarFields ''extraction'' ''summry'' 3 usualType emptyState =
       ([''summary'', ''Summery''], ?s')"
    unfolding T1 by (simp add: candidates_def scalarField_def nameDistance_examples)
  show ?thesis
    by (intro conjI g T1' T3 f U4 ed T7)
qed

text \<open>
  The claim as it was stated fails for a type that has the field \<open>summary\<close> after three
  other fields at distance 1 from \<open>summry\<close>: the three suggestions are those fields, and
  \<open>summary\<close> is not among them.
\<close>

theorem findSimilarFields_counterexample:
  "getTypeFields ''extraction'' crowdedType emptyState =
     (Inr [scalarField ''summr'', scalarField ''summrys'', scalarField ''sammry'',
           scalarField ''summary''],
      \<lparr>cachedSchema = None, sent = [GetTypeFields ''extraction'']\<rparr>)
   \<and> findSimilarFields ''extraction'' ''summry'' 3 crowdedType emptyState =
       ([''summr'', ''summrys'', ''sammry''],
        \<lparr>cachedSchema = None, sent = [GetTypeFields ''extraction'']\<rparr>)"
proof -
  have g: "getTypeFields ''extraction'' crowdedType emptyState =
     (Inr [scalarField ''summr'', scalarField ''summrys'', scalarField ''sammry'',
           scalarField ''summary''],
      \<lparr>cachedSchema = None, sent = [GetTypeFields ''extraction'']\<rparr>)"
    by (simp add: getTypeFields_def crowdedType_def extractionType_def emptyState_def)
  show ?thesis
    unfolding findSimilarFields_found[OF g]
    by (simp add: g candidates_def scalarField_def nameDistance_examples)
qed

end
